theory Spec2Isabelle
  imports Complex_Main
begin

section \<open>Values, responses and failures\<close>

text \<open>
  The notebooks handle decoded JSON throughout: features, asset tables and request
  bodies are Python values built from dicts, lists, strings and numbers. A dict is an
  association list in insertion order with distinct keys.
\<close>

datatype json =
    JNull
  | JBool bool
  | JNum rat
  | JStr string
  | JArr "json list"
  | JObj "(string \<times> json) list"

text \<open>
  The exceptions the notebooks' code can raise. \<open>HTTPError\<close> is what
  \<^verbatim>\<open>raise_for_status\<close> raises and carries the status code; \<open>RequestException\<close> stands
  for the exceptions \<^verbatim>\<open>session.get\<close> or \<^verbatim>\<open>session.post\<close> raise themselves (no
  connection, invalid URL), but for \<open>RetryError\<close>, raised when the retries of the
  session are used up; the others are Python's built-in ones.
\<close>

datatype error =
    HTTPError nat
  | RequestException
  | RetryError
  | KeyError string
  | TypeError
  | AttributeError
  | IndexError
  | ValueError
  | OSError

text \<open>
  A response as the code reads it: \<open>headers\<close> is the lookup of the header mapping
  (\<open>None\<close> where the mapping holds no such header), \<open>json_body\<close> what
  \<^verbatim>\<open>.json()\<close> decodes (\<open>None\<close> where the payload is not JSON), \<open>raw\<close> the payload
  read as a stream.
\<close>

record response =
  status_code :: nat
  headers :: "string \<rightharpoonup> string"
  json_body :: "json option"
  raw :: string

datatype request = Get string | Post string json

datatype reply = Answer response | NoAnswer

text \<open>
  The effects of the code are the requests it sends and the files it writes; both are
  kept as traces, oldest first. The service is a function from the requests sent so far
  (the current one last) to its reply, which covers every deterministic backend;
  \<open>writable\<close> tells whether the file system lets a path be opened for writing, and
  \<open>environ\<close> is the process environment.
\<close>

record world =
  log :: "request list"
  written :: "(string \<times> string) list"

record env =
  backend :: "request list \<Rightarrow> reply"
  writable :: "string \<Rightarrow> bool"
  environ :: "string \<rightharpoonup> string"

subsection \<open>Python's operations on decoded JSON\<close>

text \<open>\<^verbatim>\<open>value[key]\<close> with a string key.\<close>

fun subscript :: "json \<Rightarrow> string \<Rightarrow> error + json" where
  "subscript (JObj kvs) k = (case map_of kvs k of None \<Rightarrow> Inl (KeyError k) | Some v \<Rightarrow> Inr v)"
| "subscript _ k = Inl TypeError"

text \<open>\<^verbatim>\<open>value.get(key)\<close>: only a dict has the method.\<close>

fun dict_get :: "json \<Rightarrow> string \<Rightarrow> error + json" where
  "dict_get (JObj kvs) k = (case map_of kvs k of None \<Rightarrow> Inr JNull | Some v \<Rightarrow> Inr v)"
| "dict_get _ k = Inl AttributeError"

text \<open>The truth value of a Python value, as \<^verbatim>\<open>while next_url:\<close> tests it.\<close>

fun truthy :: "json \<Rightarrow> bool" where
  "truthy JNull = False"
| "truthy (JBool b) = b"
| "truthy (JNum n) = (n \<noteq> 0)"
| "truthy (JStr s) = (s \<noteq> [])"
| "truthy (JArr xs) = (xs \<noteq> [])"
| "truthy (JObj kvs) = (kvs \<noteq> [])"

text \<open>\<^verbatim>\<open>for item in value\<close>: a list gives its elements, a dict its keys, a string its characters.\<close>

fun iterate :: "json \<Rightarrow> error + json list" where
  "iterate (JArr xs) = Inr xs"
| "iterate (JObj kvs) = Inr (map (\<lambda>kv. JStr (fst kv)) kvs)"
| "iterate (JStr s) = Inr (map (\<lambda>c. JStr [c]) s)"
| "iterate _ = Inl TypeError"

text \<open>\<^verbatim>\<open>all(bools)\<close>.\<close>

definition py_all :: "bool list \<Rightarrow> bool" where
  "py_all bs = list_all (\<lambda>b. b) bs"

subsection \<open>The session\<close>

definition PLANET_API_URL :: string where
  "PLANET_API_URL = ''https://api.planet.com/data/v1''"

record retry =
  total :: nat
  backoff_factor :: rat
  status_forcelist :: "nat list"

record session =
  auth :: "string option \<times> string"
  mounts :: "(string \<times> retry) list"

text \<open>
  \<^verbatim>\<open>setup_session(api_key=None)\<close>; \<open>getenv\<close> is the process environment. The function
  has no raising statement, so every result is \<open>Inr\<close>.
\<close>

definition setup_session :: "string option \<Rightarrow> (string \<rightharpoonup> string) \<Rightarrow> error + session" where
  "setup_session api_key getenv =
     (let api_key = (case api_key of None \<Rightarrow> getenv ''PL_API_KEY'' | Some k \<Rightarrow> Some k);
          retries = \<lparr>total = 5, backoff_factor = 2 / 10, status_forcelist = [429]\<rparr>
      in Inr \<lparr>auth = (api_key, ''''), mounts = [(''https://'', retries)]\<rparr>)"

text \<open>
  The notebook's global \<^verbatim>\<open>session = setup_session()\<close>: no key is passed, the process
  environment is that of \<open>e\<close>.
\<close>

definition notebook_session :: "env \<Rightarrow> error + session" where
  "notebook_session e = setup_session None (environ e)"

text \<open>
  The retry policy that serves a URL: the first mounted prefix the URL starts with,
  letter case ignored. A URL under no prefix the code mounted has no policy of the
  code's.
\<close>

definition lower_char :: "char \<Rightarrow> char" where
  "lower_char c =
     (case map_of (zip ''ABCDEFGHIJKLMNOPQRSTUVWXYZ'' ''abcdefghijklmnopqrstuvwxyz'') c of
        None \<Rightarrow> c
      | Some l \<Rightarrow> l)"

definition get_adapter :: "session \<Rightarrow> string \<Rightarrow> retry option" where
  "get_adapter s url =
     map_option snd
       (find (\<lambda>m. take (length (fst m)) (map lower_char url) = map lower_char (fst m)) (mounts s))"

text \<open>
  The policy retries on a status only for the methods that may be repeated, and POST is
  not one of them. \<open>backend e\<close> gives the answer that ends a call, after the
  redirects followed and the retries made inside it. When that answer still has a status
  the policy retries on, the retries are used up and the call raises \<open>RetryError\<close>
  where it would have handed the response back.
\<close>

definition allowed_methods :: "string list" where
  "allowed_methods = [''HEAD'', ''GET'', ''PUT'', ''DELETE'', ''OPTIONS'', ''TRACE'']"

definition gives_up :: "session \<Rightarrow> string \<Rightarrow> string \<Rightarrow> response \<Rightarrow> bool" where
  "gives_up s method url r =
     (case get_adapter s url of
        None \<Rightarrow> False
      | Some retries \<Rightarrow>
          method \<in> set allowed_methods \<and> status_code r \<in> set (status_forcelist retries))"

definition send :: "env \<Rightarrow> string \<Rightarrow> string \<Rightarrow> request \<Rightarrow> world \<Rightarrow> (error + response) \<times> world" where
  "send e method url rq w =
     (case notebook_session e of
        Inl x \<Rightarrow> (Inl x, w)
      | Inr s \<Rightarrow>
          (let w' = w\<lparr>log := log w @ [rq]\<rparr>
           in case backend e (log w') of
                NoAnswer \<Rightarrow> (Inl RequestException, w')
              | Answer r \<Rightarrow>
                  if gives_up s method url r then (Inl RetryError, w') else (Inr r, w')))"

text \<open>
  \<^verbatim>\<open>session.get(url)\<close> and \<^verbatim>\<open>session.post(url, json=body)\<close> on that session. The log
  holds one entry for each call. A URL that is not a string is refused before anything
  is sent.
\<close>

definition session_get :: "env \<Rightarrow> json \<Rightarrow> world \<Rightarrow> (error + response) \<times> world" where
  "session_get e url w =
     (case url of
        JStr u \<Rightarrow> send e ''GET'' u (Get u) w
      | _ \<Rightarrow> (Inl RequestException, w))"

definition session_post :: "env \<Rightarrow> json \<Rightarrow> json \<Rightarrow> world \<Rightarrow> (error + response) \<times> world" where
  "session_post e url body w =
     (case url of
        JStr u \<Rightarrow> send e ''POST'' u (Post u body) w
      | _ \<Rightarrow> (Inl RequestException, w))"

definition raise_for_status :: "response \<Rightarrow> error + unit" where
  "raise_for_status r =
     (if 400 \<le> status_code r \<and> status_code r < 600 then Inl (HTTPError (status_code r))
      else Inr ())"

text \<open>\<^verbatim>\<open>resp.json()\<close>.\<close>

definition decode_json :: "response \<Rightarrow> error + json" where
  "decode_json r = (case json_body r of None \<Rightarrow> Inl ValueError | Some j \<Rightarrow> Inr j)"

section \<open>Search\<close>

text \<open>The request body that \<open>search\<close> builds, filter by filter.\<close>

definition search_request :: "json \<Rightarrow> string \<Rightarrow> string \<Rightarrow> string \<Rightarrow> string \<Rightarrow> json" where
  "search_request geom start_date end_date item_type asset =
     (let perm_filter = JObj
            [(''type'', JStr ''PermissionFilter''),
             (''config'', JArr [JStr (''assets.'' @ asset @ '':download'')])];
          geom_filter = JObj
            [(''type'', JStr ''GeometryFilter''),
             (''field_name'', JStr ''geometry''),
             (''config'', geom)];
          date_filter = JObj
            [(''type'', JStr ''DateRangeFilter''),
             (''field_name'', JStr ''acquired''),
             (''config'', JObj [(''gt'', JStr start_date), (''lte'', JStr end_date)])];
          and_filter = JObj
            [(''type'', JStr ''AndFilter''),
             (''config'', JArr [perm_filter, geom_filter, date_filter])]
      in JObj [(''item_types'', JArr [JStr item_type]), (''filter'', and_filter)])"

text \<open>\<^verbatim>\<open>body['features']\<close> as the \<^verbatim>\<open>for\<close> loop walks it, and \<^verbatim>\<open>body['_links'].get('_next')\<close>.\<close>

definition page_features :: "json \<Rightarrow> error + json list" where
  "page_features body =
     (case subscript body ''features'' of Inl x \<Rightarrow> Inl x | Inr fs \<Rightarrow> iterate fs)"

definition page_next :: "json \<Rightarrow> error + json" where
  "page_next body =
     (case subscript body ''_links'' of Inl x \<Rightarrow> Inl x | Inr links \<Rightarrow> dict_get links ''_next'')"

text \<open>
  A generator is modelled by what it has yielded and how it ended: \<open>None\<close> for running
  to its end, \<open>Some x\<close> for the exception that broke it off. The \<^verbatim>\<open>while next_url\<close>
  loop may run forever, so it is a partial function: \<open>None\<close> at the outer level is the
  run that never ends. Inside the loop the next link is read before the page's features
  are yielded.
\<close>

partial_function (option) search_pages ::
  "env \<Rightarrow> json \<Rightarrow> json list \<Rightarrow> world \<Rightarrow> ((json list \<times> error option) \<times> world) option" where
  "search_pages e next_url yielded w =
     (if truthy next_url then
        (case session_get e next_url w of
           (Inl x, w1) \<Rightarrow> Some ((yielded, Some x), w1)
         | (Inr response, w1) \<Rightarrow>
            (case raise_for_status response of
               Inl x \<Rightarrow> Some ((yielded, Some x), w1)
             | Inr _ \<Rightarrow>
                (case decode_json response of
                   Inl x \<Rightarrow> Some ((yielded, Some x), w1)
                 | Inr body \<Rightarrow>
                    (case page_next body of
                       Inl x \<Rightarrow> Some ((yielded, Some x), w1)
                     | Inr next_url' \<Rightarrow>
                        (case page_features body of
                           Inl x \<Rightarrow> Some ((yielded, Some x), w1)
                         | Inr items \<Rightarrow> search_pages e next_url' (yielded @ items) w1)))))
      else Some ((yielded, None), w))"

definition search ::
  "env \<Rightarrow> json \<Rightarrow> string \<Rightarrow> string \<Rightarrow> string \<Rightarrow> string \<Rightarrow> world
     \<Rightarrow> ((json list \<times> error option) \<times> world) option" where
  "search e geom start_date end_date item_type asset w =
     (case session_post e (JStr (PLANET_API_URL @ ''/quick-search''))
             (search_request geom start_date end_date item_type asset) w of
        (Inl x, w1) \<Rightarrow> Some (([], Some x), w1)
      | (Inr resp, w1) \<Rightarrow>
         (case raise_for_status resp of
            Inl x \<Rightarrow> Some (([], Some x), w1)
          | Inr _ \<Rightarrow>
             (case decode_json resp of
                Inl x \<Rightarrow> Some (([], Some x), w1)
              | Inr body \<Rightarrow>
                 (case page_features body of
                    Inl x \<Rightarrow> Some (([], Some x), w1)
                  | Inr items \<Rightarrow>
                     (case page_next body of
                        Inl x \<Rightarrow> Some ((items, Some x), w1)
                      | Inr next_url \<Rightarrow> search_pages e next_url items w1)))))"

section \<open>Activation and polling\<close>

text \<open>\<^verbatim>\<open>feature['_links']['assets']\<close>.\<close>

definition assets_url :: "json \<Rightarrow> error + json" where
  "assets_url feature =
     (case subscript feature ''_links'' of Inl x \<Rightarrow> Inl x | Inr links \<Rightarrow> subscript links ''assets'')"

text \<open>\<^verbatim>\<open>_fetch_assets(feature)\<close>.\<close>

definition fetch_assets :: "env \<Rightarrow> json \<Rightarrow> world \<Rightarrow> (error + json) \<times> world" where
  "fetch_assets e feature w =
     (case assets_url feature of
        Inl x \<Rightarrow> (Inl x, w)
      | Inr url \<Rightarrow>
         (case session_get e url w of
            (Inl x, w1) \<Rightarrow> (Inl x, w1)
          | (Inr resp, w1) \<Rightarrow>
             (case raise_for_status resp of
                Inl x \<Rightarrow> (Inl x, w1)
              | Inr _ \<Rightarrow> (decode_json resp, w1))))"

text \<open>\<^verbatim>\<open>assets[asset_name]['status']\<close>.\<close>

definition asset_status :: "json \<Rightarrow> string \<Rightarrow> error + json" where
  "asset_status assets asset_name =
     (case subscript assets asset_name of Inl x \<Rightarrow> Inl x | Inr a \<Rightarrow> subscript a ''status'')"

text \<open>\<^verbatim>\<open>assets[asset_name]['_links']['activate']\<close>.\<close>

definition activate_link :: "json \<Rightarrow> string \<Rightarrow> error + json" where
  "activate_link assets asset_name =
     (case subscript assets asset_name of
        Inl x \<Rightarrow> Inl x
      | Inr a \<Rightarrow> (case subscript a ''_links'' of Inl x \<Rightarrow> Inl x | Inr l \<Rightarrow> subscript l ''activate''))"

text \<open>The body of the \<^verbatim>\<open>for\<close> loop of \<open>activate\<close>, for one feature.\<close>

definition activate_feature :: "env \<Rightarrow> json \<Rightarrow> string \<Rightarrow> world \<Rightarrow> (error + unit) \<times> world" where
  "activate_feature e feature asset_name w =
     (case fetch_assets e feature w of
        (Inl x, w1) \<Rightarrow> (Inl x, w1)
      | (Inr assets, w1) \<Rightarrow>
         (case asset_status assets asset_name of
            Inl x \<Rightarrow> (Inl x, w1)
          | Inr st \<Rightarrow>
             if st = JStr ''inactive'' then
               (case activate_link assets asset_name of
                  Inl x \<Rightarrow> (Inl x, w1)
                | Inr url \<Rightarrow>
                   (case session_get e url w1 of
                      (Inl x, w2) \<Rightarrow> (Inl x, w2)
                    | (Inr response, w2) \<Rightarrow> (raise_for_status response, w2)))
             else (Inr (), w1)))"

fun activate :: "env \<Rightarrow> json list \<Rightarrow> string \<Rightarrow> world \<Rightarrow> (error + unit) \<times> world" where
  "activate e [] asset_name w = (Inr (), w)"
| "activate e (feature # results) asset_name w =
     (case activate_feature e feature asset_name w of
        (Inl x, w1) \<Rightarrow> (Inl x, w1)
      | (Inr _, w1) \<Rightarrow> activate e results asset_name w1)"

text \<open>
  The list comprehension of \<open>wait_for_active\<close>: one status read per item, in order,
  broken off by the first exception.
\<close>

fun statuses :: "env \<Rightarrow> json list \<Rightarrow> string \<Rightarrow> world \<Rightarrow> (error + json list) \<times> world" where
  "statuses e [] asset_name w = (Inr [], w)"
| "statuses e (item # results) asset_name w =
     (case fetch_assets e item w of
        (Inl x, w1) \<Rightarrow> (Inl x, w1)
      | (Inr assets, w1) \<Rightarrow>
         (case asset_status assets asset_name of
            Inl x \<Rightarrow> (Inl x, w1)
          | Inr st \<Rightarrow>
             (case statuses e results asset_name w1 of
                (Inl x, w2) \<Rightarrow> (Inl x, w2)
              | (Inr sts, w2) \<Rightarrow> (Inr (st # sts), w2))))"

text \<open>
  The \<^verbatim>\<open>while not all(active)\<close> loop, entered with the list \<open>active\<close>. It has no
  bound, so \<open>None\<close> is the run that never ends. The number of rounds entered so far is
  carried along and returned beside the outcome: the source does not compute it, the
  model keeps it so that the rounds of a run can be counted.
\<close>

partial_function (option) wait_loop ::
  "env \<Rightarrow> json list \<Rightarrow> string \<Rightarrow> bool list \<Rightarrow> nat \<Rightarrow> world
     \<Rightarrow> (((error + unit) \<times> world) \<times> nat) option" where
  "wait_loop e results asset_name active rounds w =
     (if \<not> py_all active then
        (case statuses e results asset_name w of
           (Inl x, w1) \<Rightarrow> Some ((Inl x, w1), Suc rounds)
         | (Inr sts, w1) \<Rightarrow>
            wait_loop e results asset_name (map (\<lambda>item. item = JStr ''active'') sts)
              (Suc rounds) w1)
      else Some ((Inr (), w), rounds))"

text \<open>
  \<open>wait_for_active_rounds\<close> is the run of \<open>wait_for_active\<close> with the number of
  rounds it entered; \<open>wait_for_active\<close> is that run without the count.
\<close>

definition wait_for_active_rounds ::
  "env \<Rightarrow> json list \<Rightarrow> string \<Rightarrow> world \<Rightarrow> (((error + unit) \<times> world) \<times> nat) option" where
  "wait_for_active_rounds e results asset_name w = wait_loop e results asset_name [False] 0 w"

definition wait_for_active ::
  "env \<Rightarrow> json list \<Rightarrow> string \<Rightarrow> world \<Rightarrow> ((error + unit) \<times> world) option" where
  "wait_for_active e results asset_name w =
     map_option fst (wait_for_active_rounds e results asset_name w)"

section \<open>Download\<close>

text \<open>
  \<^verbatim>\<open>re.findall(r'filename="(.+)"', disposition)\<close>. The dot matches every character but
  the newline and \<^verbatim>\<open>.+\<close> is greedy: at a place where \<^verbatim>\<open>filename="\<close> stands, the group
  runs to the last double quote of the line, and it holds one character at least.
\<close>

definition filename_literal :: string where
  "filename_literal = ''filename=\"''"

fun last_quote :: "string \<Rightarrow> nat option" where
  "last_quote [] = None"
| "last_quote (c # cs) =
     (case last_quote cs of
        Some j \<Rightarrow> Some (Suc j)
      | None \<Rightarrow> if c = CHR 0x22 then Some 0 else None)"

text \<open>The group of a match whose literal part ends where \<open>rest\<close> begins.\<close>

definition group_here :: "string \<Rightarrow> string option" where
  "group_here rest =
     (let line = takeWhile (\<lambda>c. c \<noteq> CHR 0x0A) rest
      in case last_quote (tl line) of
           None \<Rightarrow> None
         | Some j \<Rightarrow> Some (take (Suc j) line))"

text \<open>
  The scan from left to right; matches do not overlap, so after a match the scan goes on
  behind it: \<open>skip\<close> counts the characters of the last match still to pass.
\<close>

fun findall_filename :: "nat \<Rightarrow> string \<Rightarrow> string list" where
  "findall_filename skip [] = []"
| "findall_filename (Suc skip) (c # cs) = findall_filename skip cs"
| "findall_filename 0 (c # cs) =
     (if take (length filename_literal) (c # cs) = filename_literal then
        (case group_here (drop (length filename_literal) (c # cs)) of
           None \<Rightarrow> findall_filename 0 cs
         | Some g \<Rightarrow> g # findall_filename (length filename_literal + length g) cs)
      else findall_filename 0 cs)"

text \<open>\<^verbatim>\<open>assets[asset_name]['location']\<close>.\<close>

definition asset_location :: "json \<Rightarrow> string \<Rightarrow> error + json" where
  "asset_location assets asset_name =
     (case subscript assets asset_name of Inl x \<Rightarrow> Inl x | Inr a \<Rightarrow> subscript a ''location'')"

text \<open>
  \<^verbatim>\<open>open(filename, 'wb')\<close> succeeds on a name without a NUL character that the file
  system lets be opened; on a name with a NUL character it raises \<open>ValueError\<close>, on
  any other it raises \<open>OSError\<close>.
\<close>

definition can_open :: "env \<Rightarrow> string \<Rightarrow> bool" where
  "can_open e filename = (CHR 0x00 \<notin> set filename \<and> writable e filename)"

text \<open>
  The body of the \<^verbatim>\<open>for\<close> loop of \<open>download\<close>, for one feature, up to its
  \<^verbatim>\<open>yield\<close>. The line printed is left out. The header mapping looks a name up in
  lower case, and that is the key its \<open>KeyError\<close> names. The payload is taken to be
  read to its end: a stream that breaks while it is copied is not in the model.
\<close>

definition download_feature :: "env \<Rightarrow> json \<Rightarrow> string \<Rightarrow> world \<Rightarrow> (error + string) \<times> world" where
  "download_feature e feature asset_name w =
     (case fetch_assets e feature w of
        (Inl x, w1) \<Rightarrow> (Inl x, w1)
      | (Inr assets, w1) \<Rightarrow>
         (case asset_location assets asset_name of
            Inl x \<Rightarrow> (Inl x, w1)
          | Inr download_url \<Rightarrow>
             (case session_get e download_url w1 of
                (Inl x, w2) \<Rightarrow> (Inl x, w2)
              | (Inr response, w2) \<Rightarrow>
                 (case raise_for_status response of
                    Inl x \<Rightarrow> (Inl x, w2)
                  | Inr _ \<Rightarrow>
                     (case headers response ''Content-Disposition'' of
                        None \<Rightarrow> (Inl (KeyError ''content-disposition''), w2)
                      | Some disposition \<Rightarrow>
                         (case findall_filename 0 disposition of
                            [] \<Rightarrow> (Inl IndexError, w2)
                          | filename # _ \<Rightarrow>
                             if can_open e filename then
                               (Inr filename,
                                w2\<lparr>written := written w2 @ [(filename, raw response)]\<rparr>)
                             else if CHR 0x00 \<in> set filename then (Inl ValueError, w2)
                             else (Inl OSError, w2)))))))"

fun download ::
  "env \<Rightarrow> json list \<Rightarrow> string \<Rightarrow> world \<Rightarrow> (string list \<times> error option) \<times> world" where
  "download e [] asset_name w = (([], None), w)"
| "download e (feature # results) asset_name w =
     (case download_feature e feature asset_name w of
        (Inl x, w1) \<Rightarrow> (([], Some x), w1)
      | (Inr filename, w1) \<Rightarrow>
         (case download e results asset_name w1 of
            ((files, ended), w2) \<Rightarrow> ((filename # files, ended), w2)))"

section \<open>Paginated answers\<close>

text \<open>
  \<open>serves_pages e lg next_url pages\<close>: after the requests \<open>lg\<close>, the service answers
  the links from \<open>next_url\<close> on with the pages \<open>pages\<close>, each given by its features
  and its next link, every page reached through the link of the page before it; the
  last page has no next link. \<open>page_links\<close> lists the links followed.
\<close>

fun serves_pages :: "env \<Rightarrow> request list \<Rightarrow> json \<Rightarrow> (json list \<times> json) list \<Rightarrow> bool" where
  "serves_pages e lg next_url [] = (\<not> truthy next_url)"
| "serves_pages e lg next_url ((items, nxt) # pages) =
     (case next_url of
        JStr u \<Rightarrow>
          u \<noteq> [] \<and>
          (case backend e (lg @ [Get u]) of
             NoAnswer \<Rightarrow> False
           | Answer r \<Rightarrow>
               raise_for_status r = Inr () \<and>
               (case json_body r of
                  None \<Rightarrow> False
                | Some body \<Rightarrow>
                    page_features body = Inr items \<and> page_next body = Inr nxt \<and>
                    serves_pages e (lg @ [Get u]) nxt pages))
      | _ \<Rightarrow> False)"

fun page_links :: "json \<Rightarrow> (json list \<times> json) list \<Rightarrow> string list" where
  "page_links next_url [] = []"
| "page_links next_url ((items, nxt) # pages) =
     (case next_url of JStr u \<Rightarrow> u # page_links nxt pages | _ \<Rightarrow> [])"

section \<open>Mock services\<close>

text \<open>
  Concrete features, asset tables and backends on which the theorems below are run. A
  scene links to its assets; an asset table holds the asset \<open>visual\<close> with its status,
  its activation link and, once active, its location.
\<close>

definition fresh_world :: world where
  "fresh_world = \<lparr>log = [], written = []\<rparr>"

definition scene :: "string \<Rightarrow> json" where
  "scene n = JObj [(''id'', JStr n),
                   (''_links'', JObj [(''assets'', JStr (''https://api/assets/'' @ n))])]"

definition asset_table :: "string \<Rightarrow> string \<Rightarrow> json" where
  "asset_table n st =
     JObj [(''visual'', JObj
        ([(''status'', JStr st),
          (''_links'', JObj [(''activate'', JStr (''https://api/activate/'' @ n))])]
         @ (if st = ''active'' then [(''location'', JStr (''https://api/download/'' @ n))] else [])))]"

definition json_response :: "json \<Rightarrow> response" where
  "json_response j = \<lparr>status_code = 200, headers = Map.empty, json_body = Some j, raw = []\<rparr>"

definition status_response :: "nat \<Rightarrow> response" where
  "status_response c = \<lparr>status_code = c, headers = Map.empty, json_body = None, raw = []\<rparr>"

text \<open>
  A service on which the asset of scene A stays \<open>activating\<close>, and one on which
  scene A reports \<open>active\<close> from its second status read on and scene B from its
  fifth; \<open>polls k\<close> is the trace of \<open>k\<close> rounds over the two scenes.
\<close>

definition stuck_env :: env where
  "stuck_env = \<lparr>backend = (\<lambda>lg. Answer (json_response (asset_table ''A'' ''activating''))),
                writable = (\<lambda>p. True), environ = Map.empty\<rparr>"

definition polled_backend :: "request list \<Rightarrow> reply" where
  "polled_backend lg =
     (case rev lg of
        Get u # _ \<Rightarrow>
          if u = ''https://api/assets/A'' then
            Answer (json_response (asset_table ''A''
              (if 2 \<le> count_list lg (Get u) then ''active'' else ''activating'')))
          else if u = ''https://api/assets/B'' then
            Answer (json_response (asset_table ''B''
              (if 5 \<le> count_list lg (Get u) then ''active'' else ''activating'')))
          else NoAnswer
      | _ \<Rightarrow> NoAnswer)"

definition polled_env :: env where
  "polled_env = \<lparr>backend = polled_backend, writable = (\<lambda>p. True), environ = Map.empty\<rparr>"

definition polls :: "nat \<Rightarrow> request list" where
  "polls k = concat (replicate k [Get ''https://api/assets/A'', Get ''https://api/assets/B''])"

text \<open>
  A service that answers the status read with \<open>inactive\<close> and the activation request
  with the status code \<open>code\<close>, and one that moves the asset to \<open>activating\<close> once
  the activation request has come in. \<open>requested_world\<close> is the world after one status
  read and one activation request.
\<close>

definition refusing_backend :: "nat \<Rightarrow> request list \<Rightarrow> reply" where
  "refusing_backend code lg =
     (case rev lg of
        Get u # _ \<Rightarrow>
          if u = ''https://api/assets/A'' then Answer (json_response (asset_table ''A'' ''inactive''))
          else if u = ''https://api/activate/A'' then Answer (status_response code)
          else NoAnswer
      | _ \<Rightarrow> NoAnswer)"

definition refusing_env :: "nat \<Rightarrow> env" where
  "refusing_env code = \<lparr>backend = refusing_backend code, writable = (\<lambda>p. True), environ = Map.empty\<rparr>"

definition requested_world :: world where
  "requested_world = \<lparr>log = [Get ''https://api/assets/A'', Get ''https://api/activate/A''], written = []\<rparr>"

definition activating_backend :: "request list \<Rightarrow> reply" where
  "activating_backend lg =
     (case rev lg of
        Get u # _ \<Rightarrow>
          if u = ''https://api/assets/A'' then
            Answer (json_response (asset_table ''A''
              (if Get ''https://api/activate/A'' \<in> set lg then ''activating'' else ''inactive'')))
          else if u = ''https://api/activate/A'' then Answer (status_response 202)
          else NoAnswer
      | _ \<Rightarrow> NoAnswer)"

definition activating_env :: env where
  "activating_env = \<lparr>backend = activating_backend, writable = (\<lambda>p. True), environ = Map.empty\<rparr>"

text \<open>Three pages of two scenes each; the third has no next link.\<close>

definition page :: "json list \<Rightarrow> string option \<Rightarrow> json" where
  "page items nxt =
     JObj [(''features'', JArr items),
           (''_links'', JObj ((''_self'', JStr ''https://api/self'')
               # (case nxt of None \<Rightarrow> [] | Some u \<Rightarrow> [(''_next'', JStr u)])))]"

definition paged_backend :: "request list \<Rightarrow> reply" where
  "paged_backend lg =
     (case rev lg of
        Post u b # _ \<Rightarrow>
          Answer (json_response (page [scene ''s1'', scene ''s2''] (Some ''https://api/page/2'')))
      | Get u # _ \<Rightarrow>
          if u = ''https://api/page/2'' then
            Answer (json_response (page [scene ''s3'', scene ''s4''] (Some ''https://api/page/3'')))
          else if u = ''https://api/page/3'' then
            Answer (json_response (page [scene ''s5'', scene ''s6''] None))
          else NoAnswer
      | [] \<Rightarrow> NoAnswer)"

definition paged_env :: env where
  "paged_env = \<lparr>backend = paged_backend, writable = (\<lambda>p. True), environ = Map.empty\<rparr>"

definition aoi :: json where
  "aoi = JObj [(''type'', JStr ''Polygon''),
               (''coordinates'', JArr [JArr
                  [JArr [JNum (- 11968 / 100), JNum (3513 / 100)],
                   JArr [JNum (- 11960 / 100), JNum (3506 / 100)],
                   JArr [JNum (- 11957 / 100), JNum (3507 / 100)],
                   JArr [JNum (- 11968 / 100), JNum (3513 / 100)]]])]"

text \<open>
  A service whose asset is active and whose download answer carries the given
  \<^verbatim>\<open>Content-Disposition\<close> header, or none.
\<close>

definition file_backend :: "string option \<Rightarrow> request list \<Rightarrow> reply" where
  "file_backend disposition lg =
     (case rev lg of
        Get u # _ \<Rightarrow>
          if u = ''https://api/assets/A'' then Answer (json_response (asset_table ''A'' ''active''))
          else if u = ''https://api/download/A'' then
            Answer \<lparr>status_code = 200,
                    headers = (case disposition of
                                 None \<Rightarrow> Map.empty
                               | Some d \<Rightarrow> [''Content-Disposition'' \<mapsto> d]),
                    json_body = None,
                    raw = ''II*''\<rparr>
          else NoAnswer
      | _ \<Rightarrow> NoAnswer)"

definition file_env :: "string option \<Rightarrow> env" where
  "file_env disposition = \<lparr>backend = file_backend disposition, writable = (\<lambda>p. True), environ = Map.empty\<rparr>"

definition fetched_world :: world where
  "fetched_world = \<lparr>log = [Get ''https://api/assets/A'', Get ''https://api/download/A''], written = []\<rparr>"

definition no_environment :: "string \<rightharpoonup> string" where
  "no_environment = Map.empty"

lemmas mock_defs = fresh_world_def scene_def asset_table_def json_response_def status_response_def
  refusing_backend_def refusing_env_def requested_world_def activating_backend_def activating_env_def
  page_def paged_backend_def paged_env_def file_backend_def file_env_def fetched_world_def

section \<open>Requests and worlds\<close>

lemma send_eval:
  "send e method url rq w =
     (case backend e (log w @ [rq]) of
        NoAnswer \<Rightarrow> (Inl RequestException, w\<lparr>log := log w @ [rq]\<rparr>)
      | Answer r \<Rightarrow>
          if status_code r = 429 \<and> method \<in> set allowed_methods \<and>
             take (length ''https://'') (map lower_char url) = ''https://''
          then (Inl RetryError, w\<lparr>log := log w @ [rq]\<rparr>)
          else (Inr r, w\<lparr>log := log w @ [rq]\<rparr>))"
  by (auto simp: send_def notebook_session_def setup_session_def gives_up_def get_adapter_def
        lower_char_def Let_def split: reply.splits)

lemma session_get_eval:
  "session_get e (JStr u) w =
     (case backend e (log w @ [Get u]) of
        NoAnswer \<Rightarrow> (Inl RequestException, w\<lparr>log := log w @ [Get u]\<rparr>)
      | Answer r \<Rightarrow>
          if status_code r = 429 \<and> take (length ''https://'') (map lower_char u) = ''https://''
          then (Inl RetryError, w\<lparr>log := log w @ [Get u]\<rparr>)
          else (Inr r, w\<lparr>log := log w @ [Get u]\<rparr>))"
  by (simp add: session_get_def send_eval allowed_methods_def split: reply.splits)

lemma session_post_eval:
  "session_post e (JStr u) body w =
     (case backend e (log w @ [Post u body]) of
        NoAnswer \<Rightarrow> (Inl RequestException, w\<lparr>log := log w @ [Post u body]\<rparr>)
      | Answer r \<Rightarrow> (Inr r, w\<lparr>log := log w @ [Post u body]\<rparr>))"
  by (simp add: session_post_def send_eval allowed_methods_def split: reply.splits)

lemmas call_defs = fetch_assets_def assets_url_def session_get_eval session_post_eval
  raise_for_status_def decode_json_def asset_status_def activate_link_def asset_location_def

lemma session_get_log:
  "session_get e url w = (r, w') \<Longrightarrow> written w' = written w \<and> (\<exists>ext. log w' = log w @ ext)"
  by (cases url) (auto simp: session_get_def send_eval split: reply.splits if_splits)

lemma session_get_Inr:
  "session_get e url w = (Inr r, w') \<Longrightarrow>
     \<exists>u. url = JStr u \<and> backend e (log w @ [Get u]) = Answer r \<and> w' = w\<lparr>log := log w @ [Get u]\<rparr>"
  by (cases url) (auto simp: session_get_def send_eval split: reply.splits if_splits)

lemma session_get_Answer:
  "backend e (log w @ [Get u]) = Answer r \<Longrightarrow> status_code r \<noteq> 429 \<Longrightarrow>
     session_get e (JStr u) w = (Inr r, w\<lparr>log := log w @ [Get u]\<rparr>)"
  by (simp add: session_get_eval)

lemma ok_not_429: "raise_for_status r = Inr () \<Longrightarrow> status_code r \<noteq> 429"
  by (auto simp: raise_for_status_def split: if_splits)

lemma fetch_assets_Inr:
  "fetch_assets e feature w = (Inr assets, w1) \<Longrightarrow>
     \<exists>u. assets_url feature = Inr (JStr u) \<and> w1 = w\<lparr>log := log w @ [Get u]\<rparr>"
  by (auto simp: fetch_assets_def split: sum.splits prod.splits dest!: session_get_Inr)

lemma fetch_assets_world:
  "fetch_assets e feature w = (r, w1) \<Longrightarrow> written w1 = written w \<and> (\<exists>ext. log w1 = log w @ ext)"
  by (auto simp: fetch_assets_def split: sum.splits prod.splits dest!: session_get_log)

lemma statuses_Inr:
  "statuses e results an w = (Inr sts, w') \<Longrightarrow>
     length sts = length results \<and>
     (\<exists>us. map assets_url results = map (\<lambda>u. Inr (JStr u)) us \<and> w' = w\<lparr>log := log w @ map Get us\<rparr>)"
proof (induction results arbitrary: w sts w')
  case Nil
  then show ?case by simp
next
  case (Cons item results)
  from Cons.prems obtain assets w1 st sts' where
    f: "fetch_assets e item w = (Inr assets, w1)" and
    r: "statuses e results an w1 = (Inr sts', w')" and
    s: "sts = st # sts'"
    by (auto split: sum.splits prod.splits)
  from fetch_assets_Inr [OF f] obtain u where
    u: "assets_url item = Inr (JStr u)" "w1 = w\<lparr>log := log w @ [Get u]\<rparr>" by blast
  from Cons.IH [OF r] obtain us where
    us: "length sts' = length results" "map assets_url results = map (\<lambda>u. Inr (JStr u)) us"
        "w' = w1\<lparr>log := log w1 @ map Get us\<rparr>" by blast
  have "map assets_url (item # results) = map (\<lambda>u. Inr (JStr u)) (u # us)"
    using u us by simp
  moreover have "w' = w\<lparr>log := log w @ map Get (u # us)\<rparr>"
    using u us by simp
  ultimately show ?case using s us(1) by (intro conjI exI [of _ "u # us"]) simp_all
qed

lemma concat_replicate_comm:
  "concat (replicate k xs) @ xs = xs @ concat (replicate k xs)"
  by (induction k) simp_all

lemma inj_urls:
  "map (\<lambda>u. Inr (JStr u) :: error + json) us = map (\<lambda>u. Inr (JStr u)) vs \<Longrightarrow> us = vs"
  by (induction us arbitrary: vs) auto

lemma all_active_replicate:
  "py_all (map (\<lambda>item. item = JStr ''active'') sts) \<Longrightarrow> sts = replicate (length sts) (JStr ''active'')"
  by (induction sts) (auto simp: py_all_def)

lemma wait_loop_Inr:
  assumes "wait_loop e results an active n w = Some r" and "fst (fst r) = Inr ()"
  shows "(py_all active \<and> snd (fst r) = w \<and> snd r = n) \<or>
     (\<exists>k wk us. map assets_url results = map (\<lambda>u. Inr (JStr u)) us \<and>
        wk = w\<lparr>log := log w @ concat (replicate k (map Get us))\<rparr> \<and>
        statuses e results an wk = (Inr (replicate (length results) (JStr ''active'')), snd (fst r)) \<and>
        snd r = n + Suc k)"
  using assms
proof (induction e results an active n w r rule: wait_loop.raw_induct [rotated 1, consumes 1])
  case (1 wait_loop e results an active n w r)
  show ?case
  proof (cases "py_all active")
    case True
    with "1.hyps" "1.prems" show ?thesis by auto
  next
    case False
    with "1.hyps" "1.prems" obtain sts w1 where
      st0: "statuses e results an w = (Inr sts, w1)"
      and rc: "wait_loop e results an (map (\<lambda>item. item = JStr ''active'') sts) (Suc n) w1 = Some r"
      by (auto split: sum.splits prod.splits)
    from statuses_Inr [OF st0] obtain us where
      us: "length sts = length results" "map assets_url results = map (\<lambda>u. Inr (JStr u)) us"
          "w1 = w\<lparr>log := log w @ map Get us\<rparr>" by blast
    from "1.IH" [OF rc "1.prems"] show ?thesis
    proof
      assume a: "py_all (map (\<lambda>item. item = JStr ''active'') sts) \<and> snd (fst r) = w1 \<and> snd r = Suc n"
      then have "sts = replicate (length results) (JStr ''active'')"
        using all_active_replicate us(1) by metis
      with st0 a us(2) show ?thesis
        by (intro disjI2 exI [of _ 0] exI [of _ w] exI [of _ us]) simp
    next
      assume "\<exists>k wk vs. map assets_url results = map (\<lambda>u. Inr (JStr u)) vs \<and>
        wk = w1\<lparr>log := log w1 @ concat (replicate k (map Get vs))\<rparr> \<and>
        statuses e results an wk =
          (Inr (replicate (length results) (JStr ''active'')), snd (fst r)) \<and>
        snd r = Suc n + Suc k"
      then obtain k wk vs where
        v: "map assets_url results = map (\<lambda>u. Inr (JStr u)) vs"
           "wk = w1\<lparr>log := log w1 @ concat (replicate k (map Get vs))\<rparr>"
           "statuses e results an wk =
              (Inr (replicate (length results) (JStr ''active'')), snd (fst r))"
           "snd r = Suc n + Suc k"
        by blast
      from v(1) us(2) have "vs = us" using inj_urls by metis
      with v us(3) have "wk = w\<lparr>log := log w @ concat (replicate (Suc k) (map Get us))\<rparr>"
        by simp
      with v(3,4) us(2) show ?thesis
        by (intro disjI2 exI [of _ "Suc k"] exI [of _ wk] exI [of _ us]) simp
    qed
  qed
qed

lemma wait_loop_diverges:
  assumes never: "\<And>w1. \<exists>sts w2. statuses e results an w1 = (Inr sts, w2) \<and>
                     \<not> py_all (map (\<lambda>item. item = JStr ''active'') sts)"
    and start: "\<not> py_all active"
  shows "wait_loop e results an active n w = None"
proof -
  have h: "wait_loop e' results' an' active' n' w' = Some r \<Longrightarrow>
          e' = e \<Longrightarrow> results' = results \<Longrightarrow> an' = an \<Longrightarrow> \<not> py_all active' \<Longrightarrow> False"
    for e' results' an' active' n' w' r
  proof (induction e' results' an' active' n' w' r rule: wait_loop.raw_induct [rotated 1, consumes 1])
    case (1 wait_loop e' results' an' active' n' w' r)
    from never [of w'] obtain sts w2 where
      s: "statuses e results an w' = (Inr sts, w2)"
         "\<not> py_all (map (\<lambda>item. item = JStr ''active'') sts)" by blast
    with "1.hyps" "1.prems"
    have "wait_loop e results an (map (\<lambda>item. item = JStr ''active'') sts) (Suc n') w2 = Some r"
      by simp
    from "1.IH" [OF this] "1.prems" s(2) show False by simp
  qed
  show ?thesis
  proof (cases "wait_loop e results an active n w")
    case None
    then show ?thesis .
  next
    case (Some r)
    from h [OF Some refl refl refl start] show ?thesis ..
  qed
qed

lemma wait_loop_round:
  "\<not> py_all active \<Longrightarrow> statuses e results an w = (Inr sts, w1) \<Longrightarrow>
     wait_loop e results an active n w =
       wait_loop e results an (map (\<lambda>item. item = JStr ''active'') sts) (Suc n) w1"
  by (subst wait_loop.simps) simp

lemma wait_loop_exit:
  "py_all active \<Longrightarrow> wait_loop e results an active n w = Some ((Inr (), w), n)"
  by (subst wait_loop.simps) simp

section \<open>Pagination\<close>

lemma search_pages_served:
  "serves_pages e (log w) next_url pages \<Longrightarrow>
   search_pages e next_url yielded w =
     Some ((yielded @ concat (map fst pages), None),
           w\<lparr>log := log w @ map Get (page_links next_url pages)\<rparr>)"
proof (induction pages arbitrary: next_url yielded w)
  case Nil
  then show ?case by (subst search_pages.simps) simp
next
  case (Cons page pages)
  obtain items nxt where page: "page = (items, nxt)" by (cases page)
  from Cons.prems page obtain u r body where
    u: "next_url = JStr u" "u \<noteq> []" and
    r: "backend e (log w @ [Get u]) = Answer r" "raise_for_status r = Inr ()"
       "json_body r = Some body" and
    b: "page_features body = Inr items" "page_next body = Inr nxt" and
    rest: "serves_pages e (log w @ [Get u]) nxt pages"
    by (auto split: json.splits reply.splits option.splits)
  let ?w1 = "w\<lparr>log := log w @ [Get u]\<rparr>"
  have g: "session_get e next_url w = (Inr r, ?w1)"
    using u r session_get_Answer [OF r(1) ok_not_429 [OF r(2)]] by simp
  from rest have "serves_pages e (log ?w1) nxt pages" by simp
  from Cons.IH [OF this, of "yielded @ items"]
  have "search_pages e nxt (yielded @ items) ?w1 =
     Some (((yielded @ items) @ concat (map fst pages), None),
           ?w1\<lparr>log := log ?w1 @ map Get (page_links nxt pages)\<rparr>)" .
  then show ?case
    using u g r b page by (subst search_pages.simps) (simp add: decode_json_def)
qed

lemma search_pages_log:
  assumes "search_pages e next_url yielded w = Some r"
  shows "\<exists>ext. log (snd r) = log w @ ext"
  using assms
proof (induction e next_url yielded w r rule: search_pages.raw_induct [rotated 1, consumes 1])
  case (1 search_pages e next_url yielded w r)
  show ?case
  proof (cases "truthy next_url")
    case False
    with "1.hyps" show ?thesis by auto
  next
    case True
    obtain res w1 where g: "session_get e next_url w = (res, w1)" by (cases "session_get e next_url w")
    from session_get_log [OF g] obtain ext where e1: "log w1 = log w @ ext" by blast
    show ?thesis
    proof (cases "\<exists>nxt items. search_pages e nxt items w1 = Some r")
      case True
      then obtain nxt items where "search_pages e nxt items w1 = Some r" by blast
      from "1.IH" [OF this] e1 show ?thesis by auto
    next
      case False
      with "1.hyps" True g have "snd r = w1"
        by (auto split: sum.splits)
      with e1 show ?thesis by auto
    qed
  qed
qed

lemma search_served:
  assumes "backend e (log w @ [Post (PLANET_API_URL @ ''/quick-search'')
             (search_request geom start_date end_date item_type asset)]) = Answer r"
    and "raise_for_status r = Inr ()" and "json_body r = Some body"
    and "page_features body = Inr items" and "page_next body = Inr nxt"
    and "serves_pages e (log w @ [Post (PLANET_API_URL @ ''/quick-search'')
             (search_request geom start_date end_date item_type asset)]) nxt pages"
  shows "search e geom start_date end_date item_type asset w =
     Some ((items @ concat (map fst pages), None),
           w\<lparr>log := log w @ Post (PLANET_API_URL @ ''/quick-search'')
                  (search_request geom start_date end_date item_type asset)
                # map Get (page_links nxt pages)\<rparr>)"
proof -
  let ?p = "Post (PLANET_API_URL @ ''/quick-search'')
             (search_request geom start_date end_date item_type asset)"
  let ?w1 = "w\<lparr>log := log w @ [?p]\<rparr>"
  have p: "session_post e (JStr (PLANET_API_URL @ ''/quick-search''))
             (search_request geom start_date end_date item_type asset) w = (Inr r, ?w1)"
    using assms(1) by (simp add: session_post_eval)
  from assms(6) have "serves_pages e (log ?w1) nxt pages" by simp
  from search_pages_served [OF this, of items]
  have "search_pages e nxt items ?w1 =
     Some ((items @ concat (map fst pages), None),
           ?w1\<lparr>log := log ?w1 @ map Get (page_links nxt pages)\<rparr>)" .
  then show ?thesis
    using p assms(2-5) by (simp add: search_def decode_json_def)
qed

lemma search_first_request:
  assumes "search e geom start_date end_date item_type asset w = Some r"
  shows "\<exists>ext. log (snd r) = log w @ Post (PLANET_API_URL @ ''/quick-search'')
                  (search_request geom start_date end_date item_type asset) # ext"
proof -
  let ?p = "Post (PLANET_API_URL @ ''/quick-search'')
             (search_request geom start_date end_date item_type asset)"
  obtain res w1 where p: "session_post e (JStr (PLANET_API_URL @ ''/quick-search''))
             (search_request geom start_date end_date item_type asset) w = (res, w1)"
    by (cases "session_post e (JStr (PLANET_API_URL @ ''/quick-search''))
             (search_request geom start_date end_date item_type asset) w")
  then have w1: "log w1 = log w @ [?p]"
    by (auto simp: session_post_eval split: reply.splits)
  show ?thesis
  proof (cases "\<exists>nxt items. search_pages e nxt items w1 = Some r")
    case True
    then obtain nxt items where "search_pages e nxt items w1 = Some r" by blast
    from search_pages_log [OF this] w1 show ?thesis by auto
  next
    case False
    with assms p have "snd r = w1"
      by (auto simp: search_def split: sum.splits)
    with w1 show ?thesis by simp
  qed
qed

lemma search_request_value:
  "search_request geom start_date end_date item_type asset =
     JObj [(''item_types'', JArr [JStr item_type]),
           (''filter'', JObj
              [(''type'', JStr ''AndFilter''),
               (''config'', JArr
                  [JObj [(''type'', JStr ''PermissionFilter''),
                         (''config'', JArr [JStr (''assets.'' @ asset @ '':download'')])],
                   JObj [(''type'', JStr ''GeometryFilter''),
                         (''field_name'', JStr ''geometry''),
                         (''config'', geom)],
                   JObj [(''type'', JStr ''DateRangeFilter''),
                         (''field_name'', JStr ''acquired''),
                         (''config'', JObj [(''gt'', JStr start_date), (''lte'', JStr end_date)])]])])]"
  by (simp add: search_request_def)

lemma serves_pages_links:
  "serves_pages e lg next_url pages \<Longrightarrow>
     \<not> truthy (last (next_url # map snd pages)) \<and>
     list_all truthy (butlast (next_url # map snd pages)) \<and>
     length (page_links next_url pages) = length pages"
proof (induction pages arbitrary: lg next_url)
  case Nil
  then show ?case by simp
next
  case (Cons page pages)
  obtain items nxt where page: "page = (items, nxt)" by (cases page)
  with Cons.prems obtain u where
    u: "next_url = JStr u" "u \<noteq> []" and rest: "serves_pages e (lg @ [Get u]) nxt pages"
    by (auto split: json.splits reply.splits option.splits)
  from Cons.IH [OF rest] u page show ?case by simp
qed

section \<open>Activation\<close>

lemma activate_feature_skip:
  assumes "fetch_assets e feature w = (Inr assets, w1)"
    and "asset_status assets an = Inr st" and "st \<noteq> JStr ''inactive''"
  shows "activate_feature e feature an w = (Inr (), w1)"
  using assms by (simp add: activate_feature_def)

lemma activate_feature_error:
  assumes "fetch_assets e feature w = (Inr assets, w1)"
    and "asset_status assets an = Inr (JStr ''inactive'')"
    and "activate_link assets an = Inr (JStr url)"
    and "backend e (log w1 @ [Get url]) = Answer r"
    and "status_code r = 401 \<or> status_code r = 500"
  shows "activate_feature e feature an w =
           (Inl (HTTPError (status_code r)), w1\<lparr>log := log w1 @ [Get url]\<rparr>)"
  using assms by (auto simp: activate_feature_def session_get_eval raise_for_status_def)

lemma activate_all_skip:
  assumes "\<And>f w0. f \<in> set results \<Longrightarrow> \<exists>ext. log w0 = log w @ ext \<Longrightarrow>
            \<exists>assets w1 st. fetch_assets e f w0 = (Inr assets, w1) \<and>
               asset_status assets an = Inr st \<and> st \<noteq> JStr ''inactive''"
  shows "\<exists>us. map assets_url results = map (\<lambda>u. Inr (JStr u)) us \<and>
           activate e results an w = (Inr (), w\<lparr>log := log w @ map Get us\<rparr>)"
  using assms
proof (induction results arbitrary: w)
  case Nil
  then show ?case by simp
next
  case (Cons f results)
  have "\<exists>ext. log w = log w @ ext" by simp
  from Cons.prems [OF _ this, of f] obtain assets w1 st where
    f: "fetch_assets e f w = (Inr assets, w1)" "asset_status assets an = Inr st"
       "st \<noteq> JStr ''inactive''" by auto
  from fetch_assets_Inr [OF f(1)] obtain u where
    u: "assets_url f = Inr (JStr u)" "w1 = w\<lparr>log := log w @ [Get u]\<rparr>" by blast
  have "\<exists>assets w2 st. fetch_assets e g w0 = (Inr assets, w2) \<and>
          asset_status assets an = Inr st \<and> st \<noteq> JStr ''inactive''"
    if "g \<in> set results" "\<exists>ext. log w0 = log w1 @ ext" for g w0
  proof -
    from that(2) u(2) have "\<exists>ext. log w0 = log w @ ext" by auto
    with that(1) Cons.prems [of g w0] show ?thesis by simp
  qed
  from Cons.IH [of w1, OF this] obtain us where
    us: "map assets_url results = map (\<lambda>u. Inr (JStr u)) us"
        "activate e results an w1 = (Inr (), w1\<lparr>log := log w1 @ map Get us\<rparr>)" by blast
  have "activate e (f # results) an w = (Inr (), w\<lparr>log := log w @ map Get (u # us)\<rparr>)"
    using activate_feature_skip [OF f] us(2) u(2) by simp
  moreover have "map assets_url (f # results) = map (\<lambda>u. Inr (JStr u)) (u # us)"
    using u(1) us(1) by simp
  ultimately show ?case by blast
qed

section \<open>The file name\<close>

lemma last_quote_snoc: "last_quote (xs @ [CHR 0x22]) = Some (length xs)"
  by (induction xs) auto

lemma findall_skip_all: "length s \<le> k \<Longrightarrow> findall_filename k s = []"
proof (induction s arbitrary: k)
  case Nil
  then show ?case by simp
next
  case (Cons c s)
  then obtain j where "k = Suc j" by (cases k) auto
  with Cons show ?case by simp
qed

lemma group_here_quoted:
  assumes "name \<noteq> []" and "CHR 0x0A \<notin> set name"
  shows "group_here (name @ [CHR 0x22]) = Some name"
proof -
  have l: "takeWhile (\<lambda>c. c \<noteq> CHR 0x0A) (name @ [CHR 0x22]) = name @ [CHR 0x22]"
    using assms(2) by (auto simp: takeWhile_eq_all_conv)
  from assms(1) obtain c cs where n: "name = c # cs" by (cases name) auto
  then have "tl (name @ [CHR 0x22]) = cs @ [CHR 0x22]" by simp
  then have "last_quote (tl (name @ [CHR 0x22])) = Some (length cs)"
    by (simp add: last_quote_snoc)
  with l n show ?thesis by (simp add: group_here_def)
qed

lemma findall_at_literal:
  assumes "name \<noteq> []" and "CHR 0x0A \<notin> set name"
  shows "findall_filename 0 (filename_literal @ name @ [CHR 0x22]) = [name]"
proof -
  have lit: "filename_literal = CHR ''f'' # ''ilename=\"''" by (simp add: filename_literal_def)
  let ?cs = "''ilename=\"'' @ name @ [CHR 0x22]"
  have t: "take (length filename_literal) (CHR ''f'' # ?cs) = filename_literal"
    by (simp add: filename_literal_def)
  have d: "drop (length filename_literal) (CHR ''f'' # ?cs) = name @ [CHR 0x22]"
    by (simp add: filename_literal_def)
  have s: "findall_filename (length filename_literal + length name) ?cs = []"
    by (rule findall_skip_all) (simp add: filename_literal_def)
  have "findall_filename 0 (CHR ''f'' # ?cs) = [name]"
    using t d s group_here_quoted [OF assms] by simp
  then show ?thesis by (simp add: lit)
qed

lemma findall_attachment:
  assumes "name \<noteq> []" and "CHR 0x0A \<notin> set name"
  shows "findall_filename 0 (''attachment; filename=\"'' @ name @ ''\"'') = [name]"
proof -
  have "findall_filename 0 (''attachment; '' @ s) = findall_filename 0 s" for s
    by (simp add: filename_literal_def)
  from this [of "filename_literal @ name @ [CHR 0x22]"] findall_at_literal [OF assms]
  show ?thesis by (simp add: filename_literal_def)
qed

lemma download_feature_run:
  assumes "fetch_assets e feature w = (Inr assets, w1)"
    and "asset_location assets an = Inr url"
    and "session_get e url w1 = (Inr response, w2)"
    and "raise_for_status response = Inr ()"
  shows "download_feature e feature an w =
     (case headers response ''Content-Disposition'' of
        None \<Rightarrow> (Inl (KeyError ''content-disposition''), w2)
      | Some disposition \<Rightarrow>
          (case findall_filename 0 disposition of
             [] \<Rightarrow> (Inl IndexError, w2)
           | filename # _ \<Rightarrow>
               if can_open e filename then
                 (Inr filename, w2\<lparr>written := written w2 @ [(filename, raw response)]\<rparr>)
               else if CHR 0x00 \<in> set filename then (Inl ValueError, w2)
               else (Inl OSError, w2)))"
  using assms by (simp add: download_feature_def)

lemma download_written:
  "download e results an w = ((files, ended), w') \<Longrightarrow>
     \<exists>contents. length contents = length files \<and> written w' = written w @ zip files contents"
proof (induction results arbitrary: w files ended w')
  case Nil
  then show ?case by simp
next
  case (Cons f results)
  show ?case
  proof (cases "download_feature e f an w")
    case (Pair res w1)
    show ?thesis
    proof (cases res)
      case (Inl x)
      with Pair Cons.prems have "files = []" "w' = w1" by auto
      moreover from Pair Inl have "written w1 = written w"
        by (auto simp: download_feature_def dest!: fetch_assets_world session_get_log
                 split: sum.splits prod.splits option.splits list.splits if_splits)
      ultimately show ?thesis by simp
    next
      case (Inr name)
      obtain files' ended' w2 where r: "download e results an w1 = ((files', ended'), w2)"
        by (metis prod.exhaust)
      with Pair Inr Cons.prems have f: "files = name # files'" "w' = w2" by auto
      from Pair Inr obtain c where "written w1 = written w @ [(name, c)]"
        by (auto simp: download_feature_def dest!: fetch_assets_world session_get_log
                 split: sum.splits prod.splits option.splits list.splits if_splits)
      moreover from Cons.IH [OF r] obtain cs where
        "length cs = length files'" "written w2 = written w1 @ zip files' cs" by blast
      ultimately have "length (c # cs) = length files \<and> written w' = written w @ zip files (c # cs)"
        using f by simp
      then show ?thesis by blast
    qed
  qed
qed

section \<open>Runs on the mock services\<close>

lemma stuck_statuses:
  "statuses stuck_env [scene ''A''] ''visual'' w1 =
     (Inr [JStr ''activating''], w1\<lparr>log := log w1 @ [Get ''https://api/assets/A'']\<rparr>)"
  by (simp add: stuck_env_def scene_def fetch_assets_def assets_url_def session_get_eval
        raise_for_status_def decode_json_def json_response_def asset_table_def asset_status_def)

lemma polled_statuses:
  "statuses polled_env [scene ''A'', scene ''B''] ''visual'' (fresh_world\<lparr>log := lg\<rparr>) =
     (Inr [JStr (if 1 \<le> count_list lg (Get ''https://api/assets/A'') then ''active'' else ''activating''),
           JStr (if 4 \<le> count_list lg (Get ''https://api/assets/B'') then ''active'' else ''activating'')],
      fresh_world\<lparr>log := lg @ [Get ''https://api/assets/A'', Get ''https://api/assets/B'']\<rparr>)"
  by (simp add: polled_env_def polled_backend_def scene_def fetch_assets_def assets_url_def
        session_get_eval raise_for_status_def decode_json_def json_response_def asset_table_def
        asset_status_def fresh_world_def)

lemma activate_retries_used_up:
  "activate (refusing_env 429) [scene ''A''] ''visual'' fresh_world =
     (Inl RetryError, requested_world)"
  by (simp add: activate_feature_def mock_defs call_defs lower_char_def)

lemma polled_rounds:
  "wait_for_active_rounds polled_env [scene ''A'', scene ''B''] ''visual'' fresh_world =
     Some ((Inr (), fresh_world\<lparr>log := polls 5\<rparr>), 5)"
proof -
  have "wait_loop polled_env [scene ''A'', scene ''B''] ''visual'' [False] 0 (fresh_world\<lparr>log := []\<rparr>) =
     Some ((Inr (), fresh_world\<lparr>log := polls 5\<rparr>), 5)"
    by (simp add: wait_loop_round [OF _ polled_statuses] wait_loop_exit py_all_def polls_def
          eval_nat_numeral del: statuses.simps)
  then show ?thesis
    by (simp add: wait_for_active_rounds_def fresh_world_def)
qed

lemma polled_run:
  "wait_for_active polled_env [scene ''A'', scene ''B''] ''visual'' fresh_world =
     Some (Inr (), fresh_world\<lparr>log := polls 5\<rparr>)"
  by (simp add: wait_for_active_def polled_rounds)

lemma file_pre:
  "fetch_assets (file_env d) (scene ''A'') fresh_world =
     (Inr (asset_table ''A'' ''active''), fresh_world\<lparr>log := [Get ''https://api/assets/A'']\<rparr>)"
  "asset_location (asset_table ''A'' ''active'') ''visual'' = Inr (JStr ''https://api/download/A'')"
  "session_get (file_env d) (JStr ''https://api/download/A'') (fresh_world\<lparr>log := [Get ''https://api/assets/A'']\<rparr>) =
     (Inr \<lparr>status_code = 200,
           headers = (case d of None \<Rightarrow> Map.empty | Some d \<Rightarrow> [''Content-Disposition'' \<mapsto> d]),
           json_body = None, raw = ''II*''\<rparr>, fetched_world)"
  "raise_for_status \<lparr>status_code = 200,
           headers = (case d of None \<Rightarrow> Map.empty | Some d \<Rightarrow> [''Content-Disposition'' \<mapsto> d]),
           json_body = None, raw = ''II*''\<rparr> = Inr ()"
  by (simp_all add: mock_defs  call_defs)

lemma paged_facts:
  "backend paged_env (log fresh_world @ [Post (PLANET_API_URL @ ''/quick-search'')
      (search_request aoi ''2018-01-01T00:00:00Z'' ''2018-01-10T00:00:00Z'' ''PSScene3Band'' ''visual'')]) =
     Answer (json_response (page [scene ''s1'', scene ''s2''] (Some ''https://api/page/2'')))"
  "raise_for_status (json_response (page [scene ''s1'', scene ''s2''] (Some ''https://api/page/2''))) = Inr ()"
  "json_body (json_response (page [scene ''s1'', scene ''s2''] (Some ''https://api/page/2''))) =
     Some (page [scene ''s1'', scene ''s2''] (Some ''https://api/page/2''))"
  "page_features (page [scene ''s1'', scene ''s2''] (Some ''https://api/page/2'')) =
     Inr [scene ''s1'', scene ''s2'']"
  "page_next (page [scene ''s1'', scene ''s2''] (Some ''https://api/page/2'')) =
     Inr (JStr ''https://api/page/2'')"
  "serves_pages paged_env (log fresh_world @ [Post (PLANET_API_URL @ ''/quick-search'')
      (search_request aoi ''2018-01-01T00:00:00Z'' ''2018-01-10T00:00:00Z'' ''PSScene3Band'' ''visual'')])
     (JStr ''https://api/page/2'')
     [([scene ''s3'', scene ''s4''], JStr ''https://api/page/3''), ([scene ''s5'', scene ''s6''], JNull)]"
  by (simp_all add: paged_env_def paged_backend_def page_def json_response_def raise_for_status_def
        page_features_def page_next_def)

lemma paged_run:
  "search paged_env aoi ''2018-01-01T00:00:00Z'' ''2018-01-10T00:00:00Z'' ''PSScene3Band'' ''visual''
     fresh_world =
     Some (([scene ''s1'', scene ''s2'', scene ''s3'', scene ''s4'', scene ''s5'', scene ''s6''], None),
           fresh_world\<lparr>log := [Post (PLANET_API_URL @ ''/quick-search'')
                (search_request aoi ''2018-01-01T00:00:00Z'' ''2018-01-10T00:00:00Z'' ''PSScene3Band'' ''visual''),
              Get ''https://api/page/2'', Get ''https://api/page/3'']\<rparr>)"
  using search_served [OF paged_facts] by (simp add: fresh_world_def)

section \<open>The claims\<close>

subsection \<open>Session setup\<close>

text \<open>
  C4, as the code has it. Called without a key, \<open>setup_session\<close> takes the key from
  the environment variable \<^verbatim>\<open>PL_API_KEY\<close>; a key given as argument is used as it is.
  The function never fails: when neither the argument nor the environment gives a key,
  it returns a session whose user name is \<open>None\<close>. The password is always empty.
\<close>

theorem setup_session_key:
  "\<exists>s. setup_session api_key getenv = Inr s \<and> snd (auth s) = '''' \<and>
     fst (auth s) = (case api_key of None \<Rightarrow> getenv ''PL_API_KEY'' | Some k \<Rightarrow> Some k)"
  by (simp add: setup_session_def)

theorem setup_session_key_witness:
  "\<exists>s. setup_session None [''PL_API_KEY'' \<mapsto> ''k3y''] = Inr s \<and> snd (auth s) = '''' \<and>
     fst (auth s) = Some ''k3y''"
  using setup_session_key [of None "[''PL_API_KEY'' \<mapsto> ''k3y'']"] by simp

text \<open>
  C4 as stated fails: with no argument and an empty environment the call returns a
  session, it raises nothing.
\<close>

theorem setup_session_no_key_counterexample:
  "setup_session None no_environment =
     Inr \<lparr>auth = (None, ''''),
          mounts = [(''https://'', \<lparr>total = 5, backoff_factor = 1 / 5, status_forcelist = [429]\<rparr>)]\<rparr>"
  by (simp add: setup_session_def no_environment_def)

subsection \<open>Activation\<close>

text \<open>
  C2, as the code has it. When the status read shows \<open>inactive\<close> and the activation
  request is answered with 401, \<open>activate\<close> raises \<open>HTTPError\<close> with the code 401
  and goes no further; answered with 500 it raises \<open>HTTPError\<close> with the code 500.
  The two are the same kind of error and differ in the code it carries.
\<close>

theorem activate_status_error:
  assumes "fetch_assets e feature w = (Inr assets, w1)"
    and "asset_status assets asset_name = Inr (JStr ''inactive'')"
    and "activate_link assets asset_name = Inr (JStr url)"
    and "backend e (log w1 @ [Get url]) = Answer r"
    and "status_code r = 401 \<or> status_code r = 500"
  shows "activate e (feature # results) asset_name w =
           (Inl (HTTPError (status_code r)), w1\<lparr>log := log w1 @ [Get url]\<rparr>)"
  using activate_feature_error [OF assms] by simp

theorem activate_status_error_witness:
  "activate (refusing_env 401) [scene ''A'', scene ''B''] ''visual'' fresh_world =
     (Inl (HTTPError 401), requested_world)"
proof -
  let ?w1 = "fresh_world\<lparr>log := [Get ''https://api/assets/A'']\<rparr>"
  have 1: "fetch_assets (refusing_env 401) (scene ''A'') fresh_world =
             (Inr (asset_table ''A'' ''inactive''), ?w1)"
    by (simp add: mock_defs call_defs)
  have 2: "asset_status (asset_table ''A'' ''inactive'') ''visual'' = Inr (JStr ''inactive'')"
    by (simp add: mock_defs call_defs)
  have 3: "activate_link (asset_table ''A'' ''inactive'') ''visual'' =
             Inr (JStr ''https://api/activate/A'')"
    by (simp add: mock_defs call_defs)
  have 4: "backend (refusing_env 401) (log ?w1 @ [Get ''https://api/activate/A'']) =
             Answer (status_response 401)"
    by (simp add: mock_defs)
  have 5: "status_code (status_response 401) = 401 \<or> status_code (status_response 401) = 500"
    by (simp add: mock_defs)
  from activate_status_error [OF 1 2 3 4 5, of "[scene ''B'']"] show ?thesis
    by (simp add: mock_defs)
qed

text \<open>
  C2 as stated fails: a 401 on the activation request raises \<open>HTTPError 401\<close>, the
  error a 500 raises with another code, not an error of a kind of its own.
\<close>

theorem activate_permission_counterexample:
  "activate (refusing_env 401) [scene ''A''] ''visual'' fresh_world =
     (Inl (HTTPError 401), requested_world) \<and>
   activate (refusing_env 500) [scene ''A''] ''visual'' fresh_world =
     (Inl (HTTPError 500), requested_world)"
  by (simp add: activate_feature_def mock_defs call_defs)

text \<open>
  C6. For a feature whose asset reports \<open>activating\<close> or \<open>active\<close>, \<open>activate\<close>
  sends the status read and nothing else, and goes on with the next feature. So a run
  over features that all report \<open>activating\<close> or \<open>active\<close> from now on, as a second
  run finds them, sends one status read per feature, in order, and no activation
  request.
\<close>

theorem activate_no_op:
  "(\<forall>assets w1 st. fetch_assets e feature w = (Inr assets, w1) \<and>
       asset_status assets asset_name = Inr (JStr st) \<and> (st = ''activating'' \<or> st = ''active'') \<longrightarrow>
       activate_feature e feature asset_name w = (Inr (), w1) \<and>
       (\<exists>u. assets_url feature = Inr (JStr u) \<and> w1 = w\<lparr>log := log w @ [Get u]\<rparr>) \<and>
       activate e (feature # results) asset_name w = activate e results asset_name w1) \<and>
   ((\<forall>f \<in> set results. \<forall>w0 ext. log w0 = log w @ ext \<longrightarrow>
       (\<exists>assets w1 st. fetch_assets e f w0 = (Inr assets, w1) \<and>
          asset_status assets asset_name = Inr (JStr st) \<and> (st = ''activating'' \<or> st = ''active''))) \<longrightarrow>
    (\<exists>us. map assets_url results = map (\<lambda>u. Inr (JStr u)) us \<and>
       activate e results asset_name w = (Inr (), w\<lparr>log := log w @ map Get us\<rparr>)))"
proof (intro conjI allI impI)
  fix assets w1 st
  assume a: "fetch_assets e feature w = (Inr assets, w1) \<and>
       asset_status assets asset_name = Inr (JStr st) \<and> (st = ''activating'' \<or> st = ''active'')"
  then have n: "JStr st \<noteq> JStr ''inactive''" by auto
  from a activate_feature_skip [OF _ _ n]
  show s: "activate_feature e feature asset_name w = (Inr (), w1)" by blast
  from a fetch_assets_Inr
  show "\<exists>u. assets_url feature = Inr (JStr u) \<and> w1 = w\<lparr>log := log w @ [Get u]\<rparr>"
    by blast
  from s show "activate e (feature # results) asset_name w = activate e results asset_name w1"
    by simp
next
  assume h: "\<forall>f \<in> set results. \<forall>w0 ext. log w0 = log w @ ext \<longrightarrow>
       (\<exists>assets w1 st. fetch_assets e f w0 = (Inr assets, w1) \<and>
          asset_status assets asset_name = Inr (JStr st) \<and> (st = ''activating'' \<or> st = ''active''))"
  show "\<exists>us. map assets_url results = map (\<lambda>u. Inr (JStr u)) us \<and>
       activate e results asset_name w = (Inr (), w\<lparr>log := log w @ map Get us\<rparr>)"
  proof (rule activate_all_skip)
    fix f and w0 :: world
    assume "f \<in> set results" "\<exists>ext. log w0 = log w @ ext"
    with h obtain assets w1 st where
      "fetch_assets e f w0 = (Inr assets, w1)" "asset_status assets asset_name = Inr (JStr st)"
      "st = ''activating'' \<or> st = ''active''" by blast
    moreover then have "JStr st \<noteq> JStr ''inactive''" by auto
    ultimately show "\<exists>assets w1 st. fetch_assets e f w0 = (Inr assets, w1) \<and>
       asset_status assets asset_name = Inr st \<and> st \<noteq> JStr ''inactive''" by blast
  qed
qed

text \<open>
  The first run activates the asset; the second run, started where the first ended,
  reads the status and sends no activation request.
\<close>

theorem activate_no_op_witness:
  "activate activating_env [scene ''A''] ''visual'' fresh_world = (Inr (), requested_world) \<and>
   activate_feature activating_env (scene ''A'') ''visual'' requested_world =
     (Inr (), requested_world\<lparr>log := log requested_world @ [Get ''https://api/assets/A'']\<rparr>) \<and>
   activate activating_env [scene ''A''] ''visual'' requested_world =
     (Inr (), requested_world\<lparr>log := log requested_world @ [Get ''https://api/assets/A'']\<rparr>)"
proof -
  let ?w2 = "requested_world\<lparr>log := log requested_world @ [Get ''https://api/assets/A'']\<rparr>"
  have first: "activate activating_env [scene ''A''] ''visual'' fresh_world = (Inr (), requested_world)"
    by (simp add: activate_feature_def mock_defs call_defs)
  have 1: "fetch_assets activating_env (scene ''A'') requested_world =
             (Inr (asset_table ''A'' ''activating''), ?w2) \<and>
           asset_status (asset_table ''A'' ''activating'') ''visual'' = Inr (JStr ''activating'') \<and>
           (''activating'' = ''activating'' \<or> ''activating'' = ''active'')"
    by (simp add: mock_defs call_defs)
  have 2: "\<forall>f \<in> set [scene ''A'']. \<forall>w0 ext. log w0 = log requested_world @ ext \<longrightarrow>
       (\<exists>assets w1 st. fetch_assets activating_env f w0 = (Inr assets, w1) \<and>
          asset_status assets ''visual'' = Inr (JStr st) \<and> (st = ''activating'' \<or> st = ''active''))"
    by (simp add: mock_defs call_defs)
  have 3: "us = [''https://api/assets/A'']"
    if "map assets_url [scene ''A''] = map (\<lambda>u. Inr (JStr u)) us" for us
    using that by (auto simp: mock_defs call_defs)
  from activate_no_op [of activating_env "scene ''A''" requested_world "''visual''" "[scene ''A'']"]
    1 2 3 first
  show ?thesis by (auto simp del: activate.simps)
qed

subsection \<open>Polling\<close>

text \<open>
  C1, as the code has it. \<open>wait_for_active\<close> takes no poll interval and no deadline
  and raises no timeout error. When it returns, it has run \<open>k + 1\<close> rounds one after
  the other; every round sent one status read per feature, in the order of the
  features, also for those already active; and in the last round every feature's asset
  reported \<open>active\<close>. On a service where every round finds some asset that is not
  active, it never returns.
\<close>

theorem wait_for_active_polls:
  "(\<forall>w'. wait_for_active e results asset_name w = Some (Inr (), w') \<longrightarrow>
      (\<exists>k us. map assets_url results = map (\<lambda>u. Inr (JStr u)) us \<and>
         statuses e results asset_name (w\<lparr>log := log w @ concat (replicate k (map Get us))\<rparr>) =
           (Inr (replicate (length results) (JStr ''active'')), w') \<and>
         w' = w\<lparr>log := log w @ concat (replicate (Suc k) (map Get us))\<rparr>)) \<and>
   ((\<forall>w1. \<exists>sts w2. statuses e results asset_name w1 = (Inr sts, w2) \<and>
                \<not> py_all (map (\<lambda>item. item = JStr ''active'') sts)) \<longrightarrow>
      wait_for_active e results asset_name w = None)"
proof (intro conjI allI impI)
  fix w'
  assume r: "wait_for_active e results asset_name w = Some (Inr (), w')"
  then obtain n where "wait_loop e results asset_name [False] 0 w = Some ((Inr (), w'), n)"
    by (auto simp: wait_for_active_def wait_for_active_rounds_def)
  from wait_loop_Inr [OF this] obtain k us where
    us: "map assets_url results = map (\<lambda>u. Inr (JStr u)) us" and
    st: "statuses e results asset_name (w\<lparr>log := log w @ concat (replicate k (map Get us))\<rparr>) =
           (Inr (replicate (length results) (JStr ''active'')), w')"
    by (auto simp: py_all_def)
  from statuses_Inr [OF st] obtain vs where
    vs: "map assets_url results = map (\<lambda>u. Inr (JStr u)) vs"
        "w' = w\<lparr>log := log w @ concat (replicate k (map Get us))\<rparr>
                \<lparr>log := log (w\<lparr>log := log w @ concat (replicate k (map Get us))\<rparr>) @ map Get vs\<rparr>"
    by blast
  from us vs(1) have "vs = us" using inj_urls by metis
  with vs(2) have "w' = w\<lparr>log := log w @ concat (replicate (Suc k) (map Get us))\<rparr>"
    by (simp add: concat_replicate_comm)
  with us st
  show "\<exists>k us. map assets_url results = map (\<lambda>u. Inr (JStr u)) us \<and>
         statuses e results asset_name (w\<lparr>log := log w @ concat (replicate k (map Get us))\<rparr>) =
           (Inr (replicate (length results) (JStr ''active'')), w') \<and>
         w' = w\<lparr>log := log w @ concat (replicate (Suc k) (map Get us))\<rparr>"
    by blast
next
  assume "\<forall>w1. \<exists>sts w2. statuses e results asset_name w1 = (Inr sts, w2) \<and>
                \<not> py_all (map (\<lambda>item. item = JStr ''active'') sts)"
  then have "wait_loop e results asset_name [False] 0 w = None"
    by (intro wait_loop_diverges) (simp_all add: py_all_def)
  then show "wait_for_active e results asset_name w = None"
    by (simp add: wait_for_active_def wait_for_active_rounds_def)
qed

text \<open>
  Scene A reports \<open>active\<close> from its second status read on, scene B from its fifth:
  the call returns after five rounds of two reads each. On the service where the asset
  stays \<open>activating\<close> the call never returns.
\<close>

theorem wait_for_active_polls_witness:
  "wait_for_active polled_env [scene ''A'', scene ''B''] ''visual'' fresh_world =
     Some (Inr (), fresh_world\<lparr>log := polls 5\<rparr>) \<and>
   (\<exists>k us. map assets_url [scene ''A'', scene ''B''] = map (\<lambda>u. Inr (JStr u)) us \<and>
      statuses polled_env [scene ''A'', scene ''B''] ''visual''
          (fresh_world\<lparr>log := log fresh_world @ concat (replicate k (map Get us))\<rparr>) =
        (Inr (replicate (length [scene ''A'', scene ''B'']) (JStr ''active'')),
         fresh_world\<lparr>log := polls 5\<rparr>) \<and>
      fresh_world\<lparr>log := polls 5\<rparr> =
        fresh_world\<lparr>log := log fresh_world @ concat (replicate (Suc k) (map Get us))\<rparr>) \<and>
   (\<forall>w1. \<exists>sts w2. statuses stuck_env [scene ''A''] ''visual'' w1 = (Inr sts, w2) \<and>
                \<not> py_all (map (\<lambda>item. item = JStr ''active'') sts)) \<and>
   wait_for_active stuck_env [scene ''A''] ''visual'' fresh_world = None"
proof -
  have s: "\<forall>w1. \<exists>sts w2. statuses stuck_env [scene ''A''] ''visual'' w1 = (Inr sts, w2) \<and>
                \<not> py_all (map (\<lambda>item. item = JStr ''active'') sts)"
    by (simp add: stuck_statuses py_all_def del: statuses.simps)
  from wait_for_active_polls [of polled_env "[scene ''A'', scene ''B'']" "''visual''" fresh_world]
    wait_for_active_polls [of stuck_env "[scene ''A'']" "''visual''" fresh_world]
    polled_run s
  show ?thesis by blast
qed

text \<open>
  C1 as stated fails: there is no deadline. On the service where the asset stays
  \<open>activating\<close> the call does not fail with a timeout, it does not end.
\<close>

theorem wait_for_active_no_deadline_counterexample:
  "wait_for_active stuck_env [scene ''A''] ''visual'' fresh_world = None"
proof -
  have "wait_loop stuck_env [scene ''A''] ''visual'' [False] 0 fresh_world = None"
    by (rule wait_loop_diverges) (simp_all add: stuck_statuses py_all_def del: statuses.simps)
  then show ?thesis
    by (simp add: wait_for_active_def wait_for_active_rounds_def)
qed

text \<open>
  C10. On an empty list of features \<open>wait_for_active\<close> returns, with no request sent
  and after exactly one round: the sentinel \<^verbatim>\<open>[False]\<close> sends it into the loop, the
  round reads no status and leaves the empty list, and \<^verbatim>\<open>all\<close> holds of it. The
  rounds counted are those of \<open>wait_for_active\<close> itself: for every batch its outcome
  is that of the counted run.
\<close>

theorem wait_for_active_empty:
  "wait_for_active e [] asset_name w = Some (Inr (), w) \<and>
   wait_for_active_rounds e [] asset_name w = Some ((Inr (), w), 1) \<and>
   statuses e [] asset_name w = (Inr [], w) \<and>
   (\<forall>results. wait_for_active e results asset_name w =
      map_option fst (wait_for_active_rounds e results asset_name w))"
proof -
  have s: "statuses e [] asset_name w = (Inr [], w)" by simp
  have f: "\<not> py_all [False]" and t: "py_all (map (\<lambda>item. item = JStr ''active'') [])"
    by (simp_all add: py_all_def)
  have "wait_loop e [] asset_name [False] 0 w = Some ((Inr (), w), 1)"
    using wait_loop_round [OF f s, of 0] wait_loop_exit [OF t, of e "[]" asset_name "Suc 0" w]
    by simp
  then show ?thesis
    by (simp add: wait_for_active_def wait_for_active_rounds_def)
qed

theorem wait_for_active_empty_witness:
  "wait_for_active stuck_env [] ''visual'' fresh_world = Some (Inr (), fresh_world) \<and>
   wait_for_active_rounds stuck_env [] ''visual'' fresh_world = Some ((Inr (), fresh_world), 1)"
  using wait_for_active_empty [of stuck_env "''visual''" fresh_world] by simp

subsection \<open>Search\<close>

text \<open>
  C5. Let the service answer the search request with a first page and then serve the
  pages \<open>pages\<close>, each under the next link of the page before it, the last one with
  no next link. Then \<open>search\<close> ends, having yielded the features of all pages, page
  after page, each page's features in the order the service gave them, none dropped and
  none moved; it has sent the search request and then one request to each next link, in
  order, and none after the page without a next link.
\<close>

theorem search_follows_pages:
  assumes "backend e (log w @ [Post (PLANET_API_URL @ ''/quick-search'')
             (search_request geom start_date end_date item_type asset)]) = Answer r"
    and "raise_for_status r = Inr ()" and "json_body r = Some body"
    and "page_features body = Inr items" and "page_next body = Inr nxt"
    and "serves_pages e (log w @ [Post (PLANET_API_URL @ ''/quick-search'')
             (search_request geom start_date end_date item_type asset)]) nxt pages"
  shows "search e geom start_date end_date item_type asset w =
     Some ((concat (map fst ((items, nxt) # pages)), None),
           w\<lparr>log := log w @ Post (PLANET_API_URL @ ''/quick-search'')
                  (search_request geom start_date end_date item_type asset)
                # map Get (page_links nxt pages)\<rparr>) \<and>
     length (page_links nxt pages) = length pages \<and>
     list_all truthy (butlast (map snd ((items, nxt) # pages))) \<and>
     \<not> truthy (last (map snd ((items, nxt) # pages)))"
  using search_served [OF assms] serves_pages_links [OF assms(6)] by simp

text \<open>Three pages of two scenes each: six scenes in page order, three requests.\<close>

theorem search_follows_pages_witness:
  "search paged_env aoi ''2018-01-01T00:00:00Z'' ''2018-01-10T00:00:00Z'' ''PSScene3Band'' ''visual''
     fresh_world =
     Some (([scene ''s1'', scene ''s2'', scene ''s3'', scene ''s4'', scene ''s5'', scene ''s6''], None),
           fresh_world\<lparr>log := [Post ''https://api.planet.com/data/v1/quick-search''
                (search_request aoi ''2018-01-01T00:00:00Z'' ''2018-01-10T00:00:00Z'' ''PSScene3Band'' ''visual''),
              Get ''https://api/page/2'', Get ''https://api/page/3'']\<rparr>)"
  using search_follows_pages [OF paged_facts] by (simp add: fresh_world_def PLANET_API_URL_def)

text \<open>
  C7. The body that \<open>search\<close> builds has the item type as the one element of
  \<open>item_types\<close> and, as \<open>filter\<close>, an \<open>AndFilter\<close> over three filters in this
  order: a \<open>PermissionFilter\<close> for the download permission on the asset, a
  \<open>GeometryFilter\<close> on the field \<open>geometry\<close> with the geometry given, and a
  \<open>DateRangeFilter\<close> on the field \<open>acquired\<close> with the start under \<open>gt\<close> and the
  end under \<open>lte\<close>. Whenever \<open>search\<close> ends, the first request it sent is the POST
  of this body to the quick-search address.
\<close>

theorem search_request_body:
  "search_request geom start_date end_date item_type asset =
     JObj [(''item_types'', JArr [JStr item_type]),
           (''filter'', JObj
              [(''type'', JStr ''AndFilter''),
               (''config'', JArr
                  [JObj [(''type'', JStr ''PermissionFilter''),
                         (''config'', JArr [JStr (''assets.'' @ asset @ '':download'')])],
                   JObj [(''type'', JStr ''GeometryFilter''),
                         (''field_name'', JStr ''geometry''),
                         (''config'', geom)],
                   JObj [(''type'', JStr ''DateRangeFilter''),
                         (''field_name'', JStr ''acquired''),
                         (''config'', JObj [(''gt'', JStr start_date), (''lte'', JStr end_date)])]])])] \<and>
   (\<forall>r. search e geom start_date end_date item_type asset w = Some r \<longrightarrow>
      (\<exists>ext. log (snd r) =
         log w @ Post ''https://api.planet.com/data/v1/quick-search''
                   (search_request geom start_date end_date item_type asset) # ext))"
  using search_first_request [of e geom start_date end_date item_type asset w]
  by (simp add: search_request_value PLANET_API_URL_def)

theorem search_request_body_witness:
  "search_request aoi ''2018-01-01T00:00:00Z'' ''2018-01-10T00:00:00Z'' ''PSScene3Band'' ''visual'' =
     JObj [(''item_types'', JArr [JStr ''PSScene3Band'']),
           (''filter'', JObj
              [(''type'', JStr ''AndFilter''),
               (''config'', JArr
                  [JObj [(''type'', JStr ''PermissionFilter''),
                         (''config'', JArr [JStr ''assets.visual:download''])],
                   JObj [(''type'', JStr ''GeometryFilter''),
                         (''field_name'', JStr ''geometry''),
                         (''config'', aoi)],
                   JObj [(''type'', JStr ''DateRangeFilter''),
                         (''field_name'', JStr ''acquired''),
                         (''config'', JObj [(''gt'', JStr ''2018-01-01T00:00:00Z''),
                                            (''lte'', JStr ''2018-01-10T00:00:00Z'')])]])])] \<and>
   (\<exists>r. search paged_env aoi ''2018-01-01T00:00:00Z'' ''2018-01-10T00:00:00Z'' ''PSScene3Band''
          ''visual'' fresh_world = Some r \<and>
      (\<exists>ext. log (snd r) =
         log fresh_world @ Post ''https://api.planet.com/data/v1/quick-search''
            (search_request aoi ''2018-01-01T00:00:00Z'' ''2018-01-10T00:00:00Z'' ''PSScene3Band'' ''visual'')
           # ext))"
proof -
  note t = search_request_body [of aoi "''2018-01-01T00:00:00Z''" "''2018-01-10T00:00:00Z''"
      "''PSScene3Band''" "''visual''" paged_env fresh_world]
  from t have "search_request aoi ''2018-01-01T00:00:00Z'' ''2018-01-10T00:00:00Z'' ''PSScene3Band''
      ''visual'' =
     JObj [(''item_types'', JArr [JStr ''PSScene3Band'']),
           (''filter'', JObj
              [(''type'', JStr ''AndFilter''),
               (''config'', JArr
                  [JObj [(''type'', JStr ''PermissionFilter''),
                         (''config'', JArr [JStr ''assets.visual:download''])],
                   JObj [(''type'', JStr ''GeometryFilter''),
                         (''field_name'', JStr ''geometry''),
                         (''config'', aoi)],
                   JObj [(''type'', JStr ''DateRangeFilter''),
                         (''field_name'', JStr ''acquired''),
                         (''config'', JObj [(''gt'', JStr ''2018-01-01T00:00:00Z''),
                                            (''lte'', JStr ''2018-01-10T00:00:00Z'')])]])])]"
    by simp
  moreover from t [THEN conjunct2, rule_format, OF paged_run] paged_run
  have "\<exists>r. search paged_env aoi ''2018-01-01T00:00:00Z'' ''2018-01-10T00:00:00Z'' ''PSScene3Band''
          ''visual'' fresh_world = Some r \<and>
      (\<exists>ext. log (snd r) =
         log fresh_world @ Post ''https://api.planet.com/data/v1/quick-search''
            (search_request aoi ''2018-01-01T00:00:00Z'' ''2018-01-10T00:00:00Z'' ''PSScene3Band'' ''visual'')
           # ext)"
    by blast
  ultimately show ?thesis by (rule conjI)
qed

subsection \<open>Download\<close>

text \<open>
  C8, as the code has it. Once the download response is there, \<open>download\<close> reads the
  header \<^verbatim>\<open>Content-Disposition\<close> and takes as file name the first group that
  \<^verbatim>\<open>filename="(.+)"\<close> matches in it; a header that is just \<^verbatim>\<open>filename="n"\<close> gives
  \<open>n\<close>. Without the header it raises \<open>KeyError\<close>; with a header in which the pattern
  matches nowhere it raises \<open>IndexError\<close>. In both cases nothing is yielded for the
  feature and no file is written.
\<close>

theorem download_filename_parse:
  assumes "fetch_assets e feature w = (Inr assets, w1)"
    and "asset_location assets asset_name = Inr url"
    and "session_get e url w1 = (Inr response, w2)"
    and "raise_for_status response = Inr ()"
  shows "(headers response ''Content-Disposition'' = None \<longrightarrow>
            download e (feature # results) asset_name w =
              (([], Some (KeyError ''content-disposition'')), w2)) \<and>
         (\<forall>d. headers response ''Content-Disposition'' = Some d \<and> findall_filename 0 d = [] \<longrightarrow>
            download e (feature # results) asset_name w = (([], Some IndexError), w2)) \<and>
         (\<forall>d filename others. headers response ''Content-Disposition'' = Some d \<and>
              findall_filename 0 d = filename # others \<and> can_open e filename \<longrightarrow>
            download_feature e feature asset_name w =
              (Inr filename, w2\<lparr>written := written w2 @ [(filename, raw response)]\<rparr>)) \<and>
         (\<forall>n. n \<noteq> [] \<and> CHR 0x0A \<notin> set n \<longrightarrow>
            findall_filename 0 (filename_literal @ n @ [CHR 0x22]) = [n]) \<and>
         written w2 = written w"
proof -
  from fetch_assets_world [OF assms(1)] session_get_log [OF assms(3)]
  have "written w2 = written w" by simp
  then show ?thesis
    using download_feature_run [OF assms] findall_at_literal by simp
qed

theorem download_filename_parse_witness:
  "download (file_env None) [scene ''A''] ''visual'' fresh_world =
     (([], Some (KeyError ''content-disposition'')), fetched_world) \<and>
   download (file_env (Some ''inline'')) [scene ''A''] ''visual'' fresh_world =
     (([], Some IndexError), fetched_world) \<and>
   download_feature (file_env (Some ''attachment; filename=\"scene.tif\"'')) (scene ''A'') ''visual''
       fresh_world =
     (Inr ''scene.tif'', fetched_world\<lparr>written := [(''scene.tif'', ''II*'')]\<rparr>) \<and>
   findall_filename 0 ''filename=\"scene.tif\"'' = [''scene.tif'']"
proof -
  note a = download_filename_parse [OF file_pre(1) [of None] file_pre(2)
      file_pre(3) [of None] file_pre(4) [of None], of "[]"]
  note b = download_filename_parse [OF file_pre(1) [of "Some ''inline''"] file_pre(2)
      file_pre(3) [of "Some ''inline''"] file_pre(4) [of "Some ''inline''"], of "[]"]
  note c = download_filename_parse [OF
      file_pre(1) [of "Some ''attachment; filename=\"scene.tif\"''"] file_pre(2)
      file_pre(3) [of "Some ''attachment; filename=\"scene.tif\"''"]
      file_pre(4) [of "Some ''attachment; filename=\"scene.tif\"''"]]
  have 1: "findall_filename 0 ''inline'' = []"
    by (simp add: filename_literal_def)
  have 2: "findall_filename 0 ''attachment; filename=\"scene.tif\"'' = [''scene.tif'']"
    using findall_attachment [of "''scene.tif''"] by simp
  have 3: "''scene.tif'' \<noteq> [] \<and> CHR 0x0A \<notin> set ''scene.tif''" by simp
  have 4: "can_open (file_env (Some ''attachment; filename=\"scene.tif\"'')) ''scene.tif''"
    by (simp add: file_env_def can_open_def)
  from a have "download (file_env None) [scene ''A''] ''visual'' fresh_world =
     (([], Some (KeyError ''content-disposition'')), fetched_world)"
    by (simp del: download.simps)
  moreover from b 1 have "download (file_env (Some ''inline'')) [scene ''A''] ''visual'' fresh_world =
     (([], Some IndexError), fetched_world)"
    by (simp del: download.simps findall_filename.simps)
  moreover from c 2 4 have
    "download_feature (file_env (Some ''attachment; filename=\"scene.tif\"'')) (scene ''A'') ''visual''
       fresh_world =
     (Inr ''scene.tif'', fetched_world\<lparr>written := [(''scene.tif'', ''II*'')]\<rparr>)"
    by (simp add: fetched_world_def del: download.simps findall_filename.simps)
  moreover from c [THEN conjunct2, THEN conjunct2, THEN conjunct2, THEN conjunct1, rule_format, OF 3]
  have "findall_filename 0 ''filename=\"scene.tif\"'' = [''scene.tif'']"
    by (simp add: filename_literal_def del: findall_filename.simps)
  ultimately show ?thesis by blast
qed

text \<open>
  C8 as stated fails: what is raised for a missing header is Python's \<open>KeyError\<close>,
  and for a header without a file name its \<open>IndexError\<close>.
\<close>

theorem download_malformed_counterexample:
  "download (file_env None) [scene ''A''] ''visual'' fresh_world =
     (([], Some (KeyError ''content-disposition'')), fetched_world) \<and>
   download (file_env (Some ''attachment'')) [scene ''A''] ''visual'' fresh_world =
     (([], Some IndexError), fetched_world)"
  by (simp add: download_feature_run [OF file_pre] filename_literal_def)

text \<open>
  C9. For a feature it downloads, \<open>download\<close> opens for writing the very string the
  pattern captured, writes the payload there and yields that same string; the paths
  written in a run are the paths yielded, in order. The function takes no directory and
  changes nothing in the name: whatever non-empty, one-line name \<open>n\<close> the service
  sends as \<^verbatim>\<open>attachment; filename="n"\<close> is the path.
\<close>

theorem download_path_verbatim:
  assumes "fetch_assets e feature w = (Inr assets, w1)"
    and "asset_location assets asset_name = Inr url"
    and "session_get e url w1 = (Inr response, w2)"
    and "raise_for_status response = Inr ()"
    and "headers response ''Content-Disposition'' = Some disposition"
    and "findall_filename 0 disposition = filename # others"
    and "can_open e filename"
    and "download e results asset_name (w2\<lparr>written := written w2 @ [(filename, raw response)]\<rparr>) =
           ((files, ended), w')"
  shows "download e (feature # results) asset_name w = ((filename # files, ended), w') \<and>
         (\<exists>contents. length contents = length files \<and>
            written w' = written w @ (filename, raw response) # zip files contents) \<and>
         (\<forall>n. n \<noteq> [] \<and> CHR 0x0A \<notin> set n \<longrightarrow>
            findall_filename 0 (''attachment; filename=\"'' @ n @ ''\"'') = [n])"
proof -
  from fetch_assets_world [OF assms(1)] session_get_log [OF assms(3)]
  have k: "written w2 = written w" by simp
  have f: "download_feature e feature asset_name w =
             (Inr filename, w2\<lparr>written := written w2 @ [(filename, raw response)]\<rparr>)"
    using download_feature_run [OF assms(1-4)] assms(5-7) by simp
  with assms(8) have "download e (feature # results) asset_name w = ((filename # files, ended), w')"
    by simp
  moreover from download_written [OF assms(8)] k
  have "\<exists>contents. length contents = length files \<and>
            written w' = written w @ (filename, raw response) # zip files contents"
    by simp
  ultimately show ?thesis using findall_attachment by simp
qed

text \<open>A name that leaves the working directory is used as it comes.\<close>

theorem download_path_verbatim_witness:
  "download (file_env (Some ''attachment; filename=\"../../tmp/evil.tif\"'')) [scene ''A''] ''visual''
       fresh_world =
     (([''../../tmp/evil.tif''], None),
      fetched_world\<lparr>written := [(''../../tmp/evil.tif'', ''II*'')]\<rparr>)"
proof -
  let ?d = "''attachment; filename=\"../../tmp/evil.tif\"''"
  let ?w3 = "fetched_world\<lparr>written := written fetched_world @ [(''../../tmp/evil.tif'', ''II*'')]\<rparr>"
  have n: "''../../tmp/evil.tif'' \<noteq> [] \<and> CHR 0x0A \<notin> set ''../../tmp/evil.tif''" by simp
  have 5: "headers \<lparr>status_code = 200,
           headers = (case Some ?d of None \<Rightarrow> Map.empty | Some d \<Rightarrow> [''Content-Disposition'' \<mapsto> d]),
           json_body = None, raw = ''II*''\<rparr> ''Content-Disposition'' = Some ?d"
    by simp
  have 6: "findall_filename 0 ?d = ''../../tmp/evil.tif'' # []"
    using findall_attachment [of "''../../tmp/evil.tif''"] by simp
  have 7: "can_open (file_env (Some ?d)) ''../../tmp/evil.tif''"
    by (simp add: file_env_def can_open_def)
  have 8: "download (file_env (Some ?d)) [] ''visual''
             (fetched_world\<lparr>written := written fetched_world @
                [(''../../tmp/evil.tif'', raw \<lparr>status_code = 200,
                   headers = (case Some ?d of None \<Rightarrow> Map.empty | Some d \<Rightarrow> [''Content-Disposition'' \<mapsto> d]),
                   json_body = None, raw = ''II*''\<rparr>)]\<rparr>) = (([], None), ?w3)"
    by simp
  from download_path_verbatim [OF file_pre(1) [of "Some ?d"] file_pre(2) file_pre(3) [of "Some ?d"]
      file_pre(4) [of "Some ?d"] 5 6 7 8] n
  show ?thesis by (simp add: fetched_world_def)
qed

end
